theory Spec2Isabelle
  imports
    Complex_Main
    "HOL-Library.Char_ord"
    "HOL-Library.List_Lexorder"
    "HOL-Library.Product_Lexorder"
    "HOL-Library.Multiset"
begin

section \<open>Strings\<close>

text \<open>
  Python strings are modelled as \<open>string\<close> (a list of 8-bit characters), so the
  model covers ASCII file names; \<open>str.lower\<close> and the regular expression class
  \<open>\d\<close> are modelled on their ASCII range.
\<close>

definition startswith :: "string \<Rightarrow> string \<Rightarrow> bool" where
  "startswith s p = (take (length p) s = p)"

definition endswith :: "string \<Rightarrow> string \<Rightarrow> bool" where
  "endswith s p = (drop (length s - length p) s = p)"

definition isupper :: "char \<Rightarrow> bool" where
  "isupper c = (CHR ''A'' \<le> c \<and> c \<le> CHR ''Z'')"

definition lower_char :: "char \<Rightarrow> char" where
  "lower_char c = (if isupper c then char_of (of_char c + (32::nat)) else c)"

definition lower :: "string \<Rightarrow> string" where
  "lower s = map lower_char s"

definition isdigit :: "char \<Rightarrow> bool" where
  "isdigit c = (CHR ''0'' \<le> c \<and> c \<le> CHR ''9'')"

text \<open>\<open>int(num)\<close> on a string of decimal digits.\<close>

definition digit_val :: "char \<Rightarrow> nat" where
  "digit_val c = of_char c - 48"

definition int_of_digits :: "string \<Rightarrow> nat" where
  "int_of_digits ds = foldl (\<lambda>a c. 10 * a + digit_val c) 0 ds"

text \<open>\<open>str(count)\<close> for a non-negative integer, as the f-string formats it.\<close>

definition digit_char :: "nat \<Rightarrow> char" where
  "digit_char d = char_of (48 + d)"

fun str :: "nat \<Rightarrow> string" where
  "str n = (if n < 10 then [digit_char n] else str (n div 10) @ [digit_char (n mod 10)])"

declare str.simps [simp del]

text \<open>\<open>s.rfind(c)\<close>: the index of the last occurrence of \<open>c\<close>, or \<open>-1\<close>.\<close>

definition rfind :: "string \<Rightarrow> char \<Rightarrow> int" where
  "rfind s c = int (length (dropWhile (\<lambda>x. x \<noteq> c) (rev s))) - 1"

section \<open>Paths (\<open>os.path\<close>, POSIX flavour)\<close>

definition sep :: char where
  "sep = CHR ''/''"

definition extsep :: char where
  "extsep = CHR ''.''"

definition basename :: "string \<Rightarrow> string" where
  "basename p = (let i = rfind p sep + 1 in drop (nat i) p)"

text \<open>\<open>head.rstrip(sep)\<close>\<close>

definition rstrip :: "string \<Rightarrow> char \<Rightarrow> string" where
  "rstrip s c = rev (dropWhile (\<lambda>x. x = c) (rev s))"

definition dirname :: "string \<Rightarrow> string" where
  "dirname p =
     (let i = rfind p sep + 1;
          head = take (nat i) p
      in if head \<noteq> [] \<and> head \<noteq> replicate (length head) sep then rstrip head sep else head)"

text \<open>\<open>os.path.join(a, b)\<close> with one component after the first.\<close>

definition join :: "string \<Rightarrow> string \<Rightarrow> string" where
  "join a b =
     (if startswith b [sep] then b
      else if a = [] \<or> endswith a [sep] then a @ b
      else a @ [sep] @ b)"

definition splitext :: "string \<Rightarrow> string \<times> string" where
  "splitext p =
     (let sepIndex = rfind p sep;
          dotIndex = rfind p extsep
      in if dotIndex > sepIndex
            \<and> (\<exists>filenameIndex \<in> set [nat (sepIndex + 1) ..< nat dotIndex].
                  p ! filenameIndex \<noteq> extsep)
         then (take (nat dotIndex) p, drop (nat dotIndex) p)
         else (p, []))"

text \<open>
  \<open>os.path.relpath(path, start)\<close> raises \<open>ValueError\<close> on an empty path; otherwise
  the result depends on the platform and on the working directory, which the
  parameter \<open>rp\<close> stands for (\<open>None\<close> where it raises \<open>ValueError\<close>, as it does on
  Windows for paths on different drives).
\<close>

type_synonym relpath_env = "string \<Rightarrow> string \<Rightarrow> string option"

definition relpath :: "relpath_env \<Rightarrow> string \<Rightarrow> string \<Rightarrow> string option" where
  "relpath rp path start = (if path = [] then None else rp path start)"

section \<open>File system, effects and log\<close>

text \<open>
  A snapshot of the file system: the paths that exist, each with its content.
  The head of the list is the latest write.
\<close>

type_synonym filesystem = "(string \<times> string) list"

definition exists :: "filesystem \<Rightarrow> string \<Rightarrow> bool" where
  "exists fs p = (map_of fs p \<noteq> None)"

datatype exn = PermissionError | FileNotFoundError | ValueError | OSError

datatype level = INFO | WARNING | ERROR

datatype msg =
    TempIgnored string
  | FileCopied string string
  | PermRetry string int
  | PermExhausted string int exn
  | CopyError string exn
  | Counts nat nat
  | SourceList "string list"
  | DestList "string list"
  | SourceMissing string
  | DestMissing string
  | Started string string
  | Terminated

datatype effect =
    Log level msg
  | Exists string
  | Copy2 string string
  | Sleep real
  | Schedule string bool
  | ObserverStart
  | ObserverStop
  | ObserverJoin

text \<open>
  \<open>shutil.copy2(src, dst)\<close>: the environment may make the attempt fail with an
  exception before anything is written; otherwise a missing source raises
  \<open>FileNotFoundError\<close> and an existing one is written to \<open>dst\<close>.
\<close>

definition copy2 :: "exn option \<Rightarrow> filesystem \<Rightarrow> string \<Rightarrow> string \<Rightarrow> exn + filesystem" where
  "copy2 fault fs src dst =
     (case fault of
        Some e \<Rightarrow> Inl e
      | None \<Rightarrow> (case map_of fs src of
                   None \<Rightarrow> Inl FileNotFoundError
                 | Some c \<Rightarrow> Inr ((dst, c) # fs)))"

section \<open>\<open>CopyHandler\<close>\<close>

record copy_handler =
  source_dir :: string
  dest_dir :: string

record event =
  src_path :: string
  is_directory :: bool

text \<open>The candidate \<open>f"{base} {count}{ext}"\<close> (\<open>cnt\<close> is the source's \<open>count\<close>).\<close>

definition candidate :: "string \<Rightarrow> string \<Rightarrow> nat \<Rightarrow> string" where
  "candidate base ext cnt = base @ '' '' @ str cnt @ ext"

lemma digit_val_digit_char: "d < 10 \<Longrightarrow> digit_val (digit_char d) = d"
  by (simp add: digit_val_def digit_char_def)

lemma int_of_digits_snoc: "int_of_digits (ds @ [c]) = 10 * int_of_digits ds + digit_val c"
  by (simp add: int_of_digits_def)

lemma int_of_digits_str: "int_of_digits (str n) = n"
proof (induction n rule: str.induct)
  case (1 n)
  show ?case
  proof (cases "n < 10")
    case True
    then show ?thesis
      by (subst str.simps) (simp add: int_of_digits_def digit_val_digit_char)
  next
    case False
    with "1" have "int_of_digits (str (n div 10)) = n div 10" by simp
    with False show ?thesis
      by (subst str.simps) (simp add: int_of_digits_snoc digit_val_digit_char)
  qed
qed

lemma str_inject: "str m = str n \<Longrightarrow> m = n"
  by (metis int_of_digits_str)

lemma inj_candidate: "inj (candidate base ext)"
  by (auto simp: inj_def candidate_def dest: str_inject)

lemma finite_existing_candidates: "finite {n. exists fs (candidate base ext n)}"
proof -
  have "finite (dom (map_of fs))" by (rule finite_dom_map_of)
  then have "finite (candidate base ext -` dom (map_of fs))"
    by (rule finite_vimageI) (rule inj_candidate)
  moreover have "{n. exists fs (candidate base ext n)} = candidate base ext -` dom (map_of fs)"
    by (auto simp: exists_def)
  ultimately show ?thesis by simp
qed

text \<open>
  The \<open>while os.path.exists(new_dest)\<close> loop; the result lists the probed paths in
  order, the last one being the value of \<open>new_dest\<close> when the loop ends.
\<close>

function name_loop :: "filesystem \<Rightarrow> string \<Rightarrow> string \<Rightarrow> string \<Rightarrow> nat \<Rightarrow> string list" where
  "name_loop fs base ext new_dest cnt =
     (if exists fs new_dest
      then new_dest # name_loop fs base ext (candidate base ext cnt) (cnt + 1)
      else [new_dest])"
  by pat_completeness auto

termination
proof (relation "measure (\<lambda>(fs, base, ext, new_dest, cnt).
         card {n. cnt \<le> n \<and> exists fs (candidate base ext n)}
         + (if exists fs new_dest then 1 else 0))", goal_cases)
  case 1
  show ?case by simp
next
  case (2 fs base ext new_dest cnt)
  let ?A = "{n. cnt \<le> n \<and> exists fs (candidate base ext n)}"
  let ?B = "{n. cnt + 1 \<le> n \<and> exists fs (candidate base ext n)}"
  have fin: "finite ?A"
    by (rule finite_subset [OF _ finite_existing_candidates [of fs base ext]]) auto
  have "card ?B + (if exists fs (candidate base ext cnt) then 1 else 0) = card ?A"
  proof (cases "exists fs (candidate base ext cnt)")
    case True
    have "?A = insert cnt ?B" using True by (auto simp: le_Suc_eq)
    moreover have "cnt \<notin> ?B" by simp
    moreover have "finite ?B" by (rule finite_subset [OF _ fin]) auto
    ultimately show ?thesis using True by simp
  next
    case False
    have "?A = ?B" using False by (auto simp: Suc_le_eq) (metis le_neq_implies_less)
    then show ?thesis using False by simp
  qed
  with 2 show ?case by simp
qed

declare name_loop.simps [simp del]

text \<open>
  The outcome of a call: the exception that leaves it (if any), the effects it had,
  in order, and the file system afterwards.
\<close>

type_synonym outcome = "exn option \<times> effect list \<times> filesystem"

text \<open>
  The body of \<open>for attempt in range(retries)\<close>, over the attempts still to be made;
  \<open>faults attempt\<close> is what the environment does to that attempt's \<open>copy2\<close>.
\<close>

fun copy_attempts ::
  "copy_handler \<Rightarrow> relpath_env \<Rightarrow> (nat \<Rightarrow> exn option) \<Rightarrow> string \<Rightarrow> string \<Rightarrow> int \<Rightarrow> real
     \<Rightarrow> nat list \<Rightarrow> filesystem \<Rightarrow> effect list \<times> filesystem" where
  "copy_attempts h rp faults src new_dest retries delay [] fs = ([], fs)"
| "copy_attempts h rp faults src new_dest retries delay (attempt # rest) fs =
     (case copy2 (faults attempt) fs src new_dest of
        Inr fs' \<Rightarrow>
          (case relpath rp src (source_dir h) of
             None \<Rightarrow> ([Copy2 src new_dest, Log ERROR (CopyError src ValueError)], fs')
           | Some a \<Rightarrow>
               (case relpath rp new_dest (dest_dir h) of
                  None \<Rightarrow> ([Copy2 src new_dest, Log ERROR (CopyError src ValueError)], fs')
                | Some b \<Rightarrow> ([Copy2 src new_dest, Log INFO (FileCopied a b)], fs')))
      | Inl e \<Rightarrow>
          if e = PermissionError then
            (if int attempt < retries - 1
             then (let (tr, fs') = copy_attempts h rp faults src new_dest retries delay rest fs
                   in ([Copy2 src new_dest, Log WARNING (PermRetry src (int attempt + 1)),
                        Sleep delay] @ tr, fs'))
             else (let (tr, fs') = copy_attempts h rp faults src new_dest retries delay rest fs
                   in ([Copy2 src new_dest, Log ERROR (PermExhausted src retries e)] @ tr, fs')))
          else ([Copy2 src new_dest, Log ERROR (CopyError src e)], fs))"

definition copy_file_safely ::
  "copy_handler \<Rightarrow> relpath_env \<Rightarrow> (nat \<Rightarrow> exn option) \<Rightarrow> string \<Rightarrow> string \<Rightarrow> int \<Rightarrow> real
     \<Rightarrow> filesystem \<Rightarrow> outcome" where
  "copy_file_safely h rp faults src dest retries delay fs =
     (let (base, ext) = splitext dest;
          filename = basename src
      in if startswith filename ''~$'' \<or> endswith filename ''.tmp''
         then (None, [Log INFO (TempIgnored filename)], fs)
         else (let probes = name_loop fs base ext dest 1;
                   new_dest = last probes;
                   (tr, fs') = copy_attempts h rp faults src new_dest retries delay
                                 [0 ..< nat retries] fs
               in (None, map Exists probes @ tr, fs')))"

definition on_created ::
  "copy_handler \<Rightarrow> relpath_env \<Rightarrow> (nat \<Rightarrow> exn option) \<Rightarrow> event \<Rightarrow> filesystem \<Rightarrow> outcome" where
  "on_created h rp faults ev fs =
     (if is_directory ev then (None, [], fs)
      else case relpath rp (src_path ev) (source_dir h) of
        None \<Rightarrow> (Some ValueError, [], fs)
      | Some rel_path \<Rightarrow>
          if dirname rel_path \<noteq> [] then (None, [], fs)
          else if \<not> endswith (lower (src_path ev)) ''.xml'' then (None, [], fs)
          else (let dest_path = join (dest_dir h) (basename (src_path ev))
                in case copy_file_safely h rp faults (src_path ev) dest_path 3 (1 / 2) fs of
                     (None, tr, fs') \<Rightarrow> (None, tr, fs')
                   | (Some e, tr, fs') \<Rightarrow>
                       (None, tr @ [Log ERROR (CopyError rel_path e)], fs')))"




section \<open>Directory listing\<close>

text \<open>
  The pattern \<^verbatim>\<open>^(.*?)(\d+)?(\.[^.]+)$\<close> of \<open>extract_base_and_num\<close>, explored in
  the order \<open>re.match\<close> explores it. The third group with the end anchor: a dot
  followed by one or more characters other than a dot, up to the end.
\<close>

definition match_ext :: "string \<Rightarrow> bool" where
  "match_ext t = (case t of [] \<Rightarrow> False | c # r \<Rightarrow> c = CHR ''.'' \<and> r \<noteq> [] \<and> CHR ''.'' \<notin> set r)"

text \<open>
  The second group is greedy and optional: the digit runs from the longest to the
  shortest, then no digits at all.
\<close>

fun match_num :: "nat \<Rightarrow> string \<Rightarrow> (string option \<times> string) option" where
  "match_num 0 t = (if match_ext t then Some (None, t) else None)"
| "match_num (Suc j) t =
     (if match_ext (drop (Suc j) t) then Some (Some (take (Suc j) t), drop (Suc j) t)
      else match_num j t)"

definition match_tail :: "string \<Rightarrow> (string option \<times> string) option" where
  "match_tail t = match_num (length (takeWhile isdigit t)) t"

text \<open>
  The first group is lazy: the shortest prefix first, one more character at each
  failure; its dot does not match a line feed.
\<close>

fun match_name :: "string \<Rightarrow> string \<Rightarrow> (string \<times> string option \<times> string) option" where
  "match_name pre [] =
     (case match_tail [] of Some (num, ext) \<Rightarrow> Some (pre, num, ext) | None \<Rightarrow> None)"
| "match_name pre (c # cs) =
     (case match_tail (c # cs) of
        Some (num, ext) \<Rightarrow> Some (pre, num, ext)
      | None \<Rightarrow> if c = CHR 0x0A then None else match_name (pre @ [c]) cs)"

definition extract_base_and_num :: "string \<Rightarrow> string \<times> nat \<times> string" where
  "extract_base_and_num filename =
     (case match_name [] filename of
        Some (base, num, ext) \<Rightarrow>
          (base, (case num of Some ds \<Rightarrow> int_of_digits ds | None \<Rightarrow> 0), ext)
      | None \<Rightarrow> (filename, 0, []))"

text \<open>
  \<open>os.listdir(directory)\<close> gives the names in the directory, here each with the
  answer of \<open>os.path.isfile\<close> for it, or raises when the directory cannot be read.
\<close>

type_synonym listing = "(string \<times> bool) list"

type_synonym listdir_env = "string \<Rightarrow> exn + listing"

definition list_files_windows_style :: "listdir_env \<Rightarrow> string \<Rightarrow> string \<Rightarrow> exn + string list" where
  "list_files_windows_style ld directory extension =
     (case ld directory of
        Inl e \<Rightarrow> Inl e
      | Inr entries \<Rightarrow>
          (let files = [f. (f, isfile) \<leftarrow> entries, isfile \<and> endswith (lower f) extension]
           in Inr (sort_key extract_base_and_num files)))"

definition count_files_in_directory :: "listdir_env \<Rightarrow> string \<Rightarrow> exn + nat \<times> string list" where
  "count_files_in_directory ld directory =
     (case list_files_windows_style ld directory ''.xml'' of
        Inl e \<Rightarrow> Inl e
      | Inr files \<Rightarrow> Inr (length files, files))"

text \<open>
  In \<open>log_counts\<close> and in the worker, \<open>sdir\<close> and \<open>ddir\<close> are the source's parameters
  \<open>source_dir\<close> and \<open>dest_dir\<close>.
\<close>

definition log_counts :: "listdir_env \<Rightarrow> string \<Rightarrow> string \<Rightarrow> exn + effect list" where
  "log_counts ld sdir ddir =
     (case count_files_in_directory ld sdir of
        Inl e \<Rightarrow> Inl e
      | Inr (src_count, src_files) \<Rightarrow>
          (case count_files_in_directory ld ddir of
             Inl e \<Rightarrow> Inl e
           | Inr (dst_count, dst_files) \<Rightarrow>
               Inr [Log INFO (Counts src_count dst_count),
                    Log INFO (SourceList src_files),
                    Log INFO (DestList dst_files)]))"



section \<open>The worker\<close>

text \<open>
  What the worker observes of its environment: whether a path is a directory when
  it starts, the successive readings of \<open>time.time()\<close>, and the directory listings
  at each turn of the poll loop. The stop event is absent (\<open>None\<close>) or gives the
  answer of \<open>is_set()\<close> at each turn.
\<close>

record worker_env =
  isdir :: "string \<Rightarrow> bool"
  clock :: "nat \<Rightarrow> real"
  listdir_at :: "nat \<Rightarrow> listdir_env"

type_synonym stop_event = "nat \<Rightarrow> bool"

text \<open>
  The \<open>while True\<close> loop: \<open>i\<close> counts its turns and \<open>t\<close> the readings of the clock
  made so far. It ends when the stop event is seen set (no exception) or when
  \<open>log_counts\<close> raises; \<open>None\<close> is the loop that never ends.
\<close>

partial_function (option) poll_loop ::
  "worker_env \<Rightarrow> stop_event option \<Rightarrow> string \<Rightarrow> string \<Rightarrow> real \<Rightarrow> nat \<Rightarrow> nat \<Rightarrow> real
     \<Rightarrow> effect list \<Rightarrow> (exn option \<times> effect list) option" where
  "poll_loop env external_stop_event sdir ddir count_interval i t last_check acc =
     (let acc1 = acc @ [Sleep (1 / 10)] in
      if (case external_stop_event of None \<Rightarrow> False | Some ev \<Rightarrow> ev i)
      then Some (None, acc1)
      else if clock env t - last_check > count_interval
      then (case log_counts (listdir_at env i) sdir ddir of
              Inl e \<Rightarrow> Some (Some e, acc1)
            | Inr logs \<Rightarrow>
                poll_loop env external_stop_event sdir ddir count_interval
                  (i + 1) (t + 2) (clock env (t + 1)) (acc1 @ logs))
      else poll_loop env external_stop_event sdir ddir count_interval
             (i + 1) (t + 1) last_check acc1)"

definition start_backup_worker ::
  "worker_env \<Rightarrow> string \<Rightarrow> string \<Rightarrow> real \<Rightarrow> stop_event option
     \<Rightarrow> (exn option \<times> effect list) option" where
  "start_backup_worker env sdir ddir count_interval external_stop_event =
     (if \<not> isdir env sdir then Some (None, [Log ERROR (SourceMissing sdir)])
      else if \<not> isdir env ddir then Some (None, [Log ERROR (DestMissing ddir)])
      else (case poll_loop env external_stop_event sdir ddir count_interval
                   0 1 (clock env 0)
                   [Log INFO (Started sdir ddir), Schedule sdir False,
                    ObserverStart] of
              None \<Rightarrow> None
            | Some (exc, tr) \<Rightarrow>
                Some (exc, tr @ [ObserverStop, ObserverJoin, Log INFO Terminated])))"

declare poll_loop.simps [code]

section \<open>Example environments\<close>











definition missing_dest_env :: worker_env where
  "missing_dest_env =
     \<lparr>isdir = (\<lambda>d. d = ''/s''),
      clock = (\<lambda>n. 0),
      listdir_at = (\<lambda>i d. Inr [])\<rparr>"


section \<open>Name resolution and the copy\<close>











text \<open>
  Claim C4. When the basename of the source starts with \<open>~$\<close> or ends with
  \<open>.tmp\<close>, \<open>copy_file_safely\<close> logs one informational message and returns: no
  existence probe, no copy attempt, no retry, and the file system is unchanged,
  also for a name such as \<open>~$draft.xml\<close> whose extension qualifies.
\<close>

theorem copy_file_safely_skips_temporary:
  assumes "startswith (basename src) ''~$'' \<or> endswith (basename src) ''.tmp''"
  shows "copy_file_safely h rp faults src dest retries delay fs
           = (None, [Log INFO (TempIgnored (basename src))], fs)"
  using assms by (simp add: copy_file_safely_def Let_def split: prod.splits)

theorem copy_file_safely_skips_temporary_witness:
  "(startswith (basename ''/s/~$draft.xml'') ''~$'' \<or> endswith (basename ''/s/~$draft.xml'') ''.tmp'')
   \<and> endswith (lower ''/s/~$draft.xml'') ''.xml''
   \<and> copy_file_safely \<lparr>source_dir = ''/s'', dest_dir = ''/d''\<rparr> (\<lambda>p s. Some p) (\<lambda>i. None)
        ''/s/~$draft.xml'' ''/d/~$draft.xml'' 3 (1 / 2) [(''/s/~$draft.xml'', ''c'')]
      = (None, [Log INFO (TempIgnored ''~$draft.xml'')], [(''/s/~$draft.xml'', ''c'')])"
proof -
  have a: "startswith (basename ''/s/~$draft.xml'') ''~$'' \<or> endswith (basename ''/s/~$draft.xml'') ''.tmp''"
    by code_simp
  have b: "basename ''/s/~$draft.xml'' = ''~$draft.xml''"
    by code_simp
  have c: "endswith (lower ''/s/~$draft.xml'') ''.xml''"
    by code_simp
  from copy_file_safely_skips_temporary [OF a] a b c show ?thesis by simp
qed

section \<open>The retry policy\<close>








section \<open>Event filtering\<close>

lemma dirname_nonempty_iff: "dirname p \<noteq> [] \<longleftrightarrow> sep \<in> set p"
proof (cases "sep \<in> set p")
  case False
  then have "dropWhile (\<lambda>x. x \<noteq> sep) (rev p) = []"
    by (auto simp: dropWhile_eq_Nil_conv)
  then have "dirname p = []"
    by (simp add: dirname_def rfind_def Let_def)
  with False show ?thesis by simp
next
  case True
  let ?L = "length (dropWhile (\<lambda>x. x \<noteq> sep) (rev p))"
  let ?head = "take ?L p"
  have "dropWhile (\<lambda>x. x \<noteq> sep) (rev p) \<noteq> []"
    using True by (auto simp: dropWhile_eq_Nil_conv)
  then have pos: "0 < ?L" by simp
  have "?L \<le> length p"
    using length_dropWhile_le [of "\<lambda>x. x \<noteq> sep" "rev p"] by simp
  with pos have ne: "?head \<noteq> []" by auto
  have "rstrip ?head sep \<noteq> []" if "?head \<noteq> replicate (length ?head) sep"
  proof -
    from that have "\<exists>x\<in>set ?head. x \<noteq> sep"
      by (metis replicate_length_same)
    then show ?thesis
      by (auto simp: rstrip_def dropWhile_eq_Nil_conv)
  qed
  with ne have "dirname p \<noteq> []"
    by (simp add: dirname_def rfind_def Let_def)
  with True show ?thesis by simp
qed

lemma copy_file_safely_returns: "fst (copy_file_safely h rp faults src dest retries delay fs) = None"
  by (simp add: copy_file_safely_def Let_def split: prod.splits)

text \<open>
  Claim C3. A creation event that is a directory event, or whose path relative to
  the watched root contains a directory separator, or whose path does not end in
  \<open>.xml\<close> once lowercased, has no effect at all: no probe and no copy. An event
  that passes the three filters is handled by \<open>copy_file_safely\<close> with the
  destination \<open>join dest_dir (basename src_path)\<close>, and only such events have any
  effect.
\<close>

theorem on_created_filters:
  "(is_directory ev
      \<or> (\<exists>rel. relpath rp (src_path ev) (source_dir h) = Some rel \<and> sep \<in> set rel)
      \<or> \<not> endswith (lower (src_path ev)) ''.xml''
     \<longrightarrow> fst (snd (on_created h rp faults ev fs)) = [] \<and> snd (snd (on_created h rp faults ev fs)) = fs)
   \<and> (\<not> is_directory ev
        \<and> (\<exists>rel. relpath rp (src_path ev) (source_dir h) = Some rel \<and> sep \<notin> set rel)
        \<and> endswith (lower (src_path ev)) ''.xml''
     \<longrightarrow> on_created h rp faults ev fs
           = copy_file_safely h rp faults (src_path ev)
               (join (dest_dir h) (basename (src_path ev))) 3 (1 / 2) fs)
   \<and> (fst (snd (on_created h rp faults ev fs)) \<noteq> []
     \<longrightarrow> \<not> is_directory ev
         \<and> (\<exists>rel. relpath rp (src_path ev) (source_dir h) = Some rel \<and> sep \<notin> set rel)
         \<and> endswith (lower (src_path ev)) ''.xml'')"
proof -
  let ?c = "copy_file_safely h rp faults (src_path ev)
               (join (dest_dir h) (basename (src_path ev))) 3 (1 / 2) fs"
  obtain tr fs' where c: "?c = (None, tr, fs')"
    using copy_file_safely_returns [of h rp faults "src_path ev"
        "join (dest_dir h) (basename (src_path ev))" 3 "1 / 2" fs]
    by (cases ?c) auto
  show ?thesis
    using c by (auto simp: on_created_def Let_def dirname_nonempty_iff split: option.splits)
qed

theorem on_created_filters_witness:
  "\<not> is_directory \<lparr>src_path = ''/s/a.xml'', is_directory = False\<rparr>
   \<and> relpath (\<lambda>p s. Some (drop 3 p)) ''/s/a.xml'' ''/s'' = Some ''a.xml''
   \<and> sep \<notin> set ''a.xml''
   \<and> endswith (lower ''/s/a.xml'') ''.xml''
   \<and> on_created \<lparr>source_dir = ''/s'', dest_dir = ''/d''\<rparr> (\<lambda>p s. Some (drop 3 p)) (\<lambda>i. None)
        \<lparr>src_path = ''/s/a.xml'', is_directory = False\<rparr> [(''/s/a.xml'', ''c'')]
     = copy_file_safely \<lparr>source_dir = ''/s'', dest_dir = ''/d''\<rparr> (\<lambda>p s. Some (drop 3 p)) (\<lambda>i. None)
         ''/s/a.xml'' ''/d/a.xml'' 3 (1 / 2) [(''/s/a.xml'', ''c'')]"
proof -
  let ?ev = "\<lparr>src_path = ''/s/a.xml'', is_directory = False\<rparr>"
  let ?h = "\<lparr>source_dir = ''/s'', dest_dir = ''/d''\<rparr>"
  let ?rp = "\<lambda>p s. Some (drop 3 p) :: string option"
  have d: "\<not> is_directory ?ev"
    by simp
  have r: "relpath ?rp ''/s/a.xml'' ''/s'' = Some ''a.xml''"
    by (simp add: relpath_def)
  have s: "sep \<notin> set ''a.xml''"
    by (simp add: sep_def)
  have x: "endswith (lower ''/s/a.xml'') ''.xml''"
    by code_simp
  have j: "join ''/d'' (basename ''/s/a.xml'') = ''/d/a.xml''"
    by code_simp
  have pre: "\<not> is_directory ?ev
      \<and> (\<exists>rel. relpath ?rp (src_path ?ev) (source_dir ?h) = Some rel \<and> sep \<notin> set rel)
      \<and> endswith (lower (src_path ?ev)) ''.xml''"
    unfolding event.select_convs copy_handler.select_convs using r s x by blast
  from on_created_filters [of ?ev ?rp ?h "\<lambda>i. None" "[(''/s/a.xml'', ''c'')]"] pre
  have "on_created ?h ?rp (\<lambda>i. None) ?ev [(''/s/a.xml'', ''c'')]
     = copy_file_safely ?h ?rp (\<lambda>i. None) (src_path ?ev)
         (join (dest_dir ?h) (basename (src_path ?ev))) 3 (1 / 2) [(''/s/a.xml'', ''c'')]"
    by blast
  then have "on_created ?h ?rp (\<lambda>i. None) ?ev [(''/s/a.xml'', ''c'')]
     = copy_file_safely ?h ?rp (\<lambda>i. None) ''/s/a.xml'' ''/d/a.xml'' 3 (1 / 2)
         [(''/s/a.xml'', ''c'')]"
    unfolding event.select_convs copy_handler.select_convs j .
  with d r s x show ?thesis by blast
qed

text \<open>
  Once the relative path has been computed, no exception leaves the callback.
\<close>

lemma on_created_returns:
  assumes "is_directory ev \<or> relpath rp (src_path ev) (source_dir h) \<noteq> None"
  shows "fst (on_created h rp faults ev fs) = None"
proof -
  let ?c = "copy_file_safely h rp faults (src_path ev)
               (join (dest_dir h) (basename (src_path ev))) 3 (1 / 2) fs"
  obtain tr fs' where "?c = (None, tr, fs')"
    using copy_file_safely_returns [of h rp faults "src_path ev"
        "join (dest_dir h) (basename (src_path ev))" 3 "1 / 2" fs]
    by (cases ?c) auto
  with assms show ?thesis
    by (auto simp: on_created_def Let_def split: option.splits)
qed


section \<open>The life cycle of the worker\<close>

text \<open>
  Claim C7. When the source or the destination directory does not exist,
  \<open>start_backup_worker\<close> returns normally after exactly one effect, the error that
  names the missing directory (the source when both are missing): no start banner,
  no observer, no poll loop.
\<close>

theorem start_backup_worker_missing_directory:
  assumes "\<not> isdir env sdir \<or> \<not> isdir env ddir"
  shows "start_backup_worker env sdir ddir count_interval external_stop_event
           = Some (None, [Log ERROR (if \<not> isdir env sdir then SourceMissing sdir
                                      else DestMissing ddir)])"
  using assms by (auto simp: start_backup_worker_def)

theorem start_backup_worker_missing_directory_witness:
  "isdir missing_dest_env ''/s'' \<and> \<not> isdir missing_dest_env ''/d''
   \<and> start_backup_worker missing_dest_env ''/s'' ''/d'' 60 None
       = Some (None, [Log ERROR (DestMissing ''/d'')])"
proof -
  have s: "isdir missing_dest_env ''/s''" and d: "\<not> isdir missing_dest_env ''/d''"
    by (simp_all add: missing_dest_env_def)
  from d have m: "\<not> isdir missing_dest_env ''/s'' \<or> \<not> isdir missing_dest_env ''/d''"
    by simp
  from start_backup_worker_missing_directory [OF m, of 60 None] s d show ?thesis
    by simp
qed





section \<open>Listing and natural order\<close>











subsection \<open>The pattern and the natural key\<close>


lemma line_feed_not_digit: "\<not> isdigit (CHR 0x0A)"
  by code_simp































end
